theory Spec2Isabelle
  imports Main
begin

section \<open>Python strings and truthiness\<close>

text \<open>
  Strings are \<^typ>\<open>string\<close>. \<open>str.lower()\<close> is modelled on the ASCII letters: the
  twenty-six capitals map to their small letters and every other character is kept.
\<close>

definition lower_char :: "char \<Rightarrow> char" where
  "lower_char c =
     (case map_of (zip ''ABCDEFGHIJKLMNOPQRSTUVWXYZ'' ''abcdefghijklmnopqrstuvwxyz'') c of
        Some l \<Rightarrow> l
      | None \<Rightarrow> c)"

definition lower :: "string \<Rightarrow> string" where
  "lower s = map lower_char s"

text \<open>\<open>s.startswith(sub)\<close> and the substring test \<open>sub in s\<close>.\<close>

fun startswith :: "'a list \<Rightarrow> 'a list \<Rightarrow> bool" where
  "startswith s [] = True"
| "startswith [] (c # sub) = False"
| "startswith (x # s) (c # sub) = (x = c \<and> startswith s sub)"

fun str_contains :: "'a list \<Rightarrow> 'a list \<Rightarrow> bool" where
  "str_contains [] sub = (sub = [])"
| "str_contains (x # s) sub = (startswith (x # s) sub \<or> str_contains s sub)"

text \<open>
  \<open>x if x else d\<close> for an optional string or list \<open>x\<close>: \<open>None\<close> and the empty
  sequence are both falsy.
\<close>

fun if_truthy_else :: "'a list option \<Rightarrow> 'a list \<Rightarrow> 'a list" where
  "if_truthy_else None d = d"
| "if_truthy_else (Some x) d = (if x \<noteq> [] then x else d)"


section \<open>The rate limiter\<close>

text \<open>
  The limiter's state: for each lookup key, the instant at which the key's current
  window was opened. Timestamps and window lengths are seconds. The lookup key is the
  pair of bucket key and discriminator key.
\<close>

type_synonym limiter_key = "string \<times> string"

type_synonym limiter_map = "limiter_key \<rightharpoonup> int"

text \<open>
  Modelled from the spec: \<open>robusta.utils.rate_limiter.RateLimiter\<close> is imported by the
  trigger and is not among the source files. The spec (4.2): \<open>mark_and_test(bucket_key,
  discriminator_key, window_seconds)\<close> combines bucket and discriminator into one lookup
  key; each key's window starts on that key's first observed occurrence; within an open
  window the first occurrence gets \<open>true\<close> and every later one \<open>false\<close>; a call that
  arrives after the window has expired starts a new window and gets \<open>true\<close>; calls
  with different keys never interact. The spec keys the limiter by the pair (2) and
  does not give an encoding of the combined key, so the combined key is the pair
  itself. The clock reading of the call is the parameter \<open>now\<close>. A window opened at
  \<open>start\<close> has expired at \<open>now\<close> when more than \<open>window_seconds\<close> have passed (the
  spec's example: a 60 second window opened at 0 is still open at 30 and has expired at
  61). A denied call leaves the state as it is, so the window stays anchored at its
  first occurrence.
\<close>

definition window_expired :: "int \<Rightarrow> int \<Rightarrow> int \<Rightarrow> bool" where
  "window_expired start window_seconds now \<longleftrightarrow> now - start > window_seconds"

definition mark_and_test ::
  "int \<Rightarrow> string \<Rightarrow> string \<Rightarrow> int \<Rightarrow> limiter_map \<Rightarrow> bool \<times> limiter_map" where
  "mark_and_test now bucket_key discriminator_key window_seconds limiter =
     (let limiter_key = (bucket_key, discriminator_key) in
      case limiter limiter_key of
        None \<Rightarrow> (True, limiter(limiter_key \<mapsto> now))
      | Some start \<Rightarrow>
          if window_expired start window_seconds now
          then (True, limiter(limiter_key \<mapsto> now))
          else (False, limiter))"

text \<open>
  A sequence of calls, each with its own clock reading, run one after the other on the
  shared state: the verdicts in order, and the final state.
\<close>

type_synonym limiter_call = "int \<times> string \<times> string \<times> int"

fun call_key :: "limiter_call \<Rightarrow> limiter_key" where
  "call_key (now, bucket_key, discriminator_key, window_seconds) =
     (bucket_key, discriminator_key)"

fun call_now :: "limiter_call \<Rightarrow> int" where
  "call_now (now, bucket_key, discriminator_key, window_seconds) = now"

fun call_window :: "limiter_call \<Rightarrow> int" where
  "call_window (now, bucket_key, discriminator_key, window_seconds) = window_seconds"

fun run_calls :: "limiter_call list \<Rightarrow> limiter_map \<Rightarrow> bool list \<times> limiter_map" where
  "run_calls [] limiter = ([], limiter)"
| "run_calls ((now, bucket_key, discriminator_key, window_seconds) # calls) limiter =
     (let (verdict, limiter') =
            mark_and_test now bucket_key discriminator_key window_seconds limiter;
          (verdicts, limiter'') = run_calls calls limiter'
      in (verdict # verdicts, limiter''))"

text \<open>The verdicts that a run gives to the calls on one key, in order.\<close>

definition verdicts_for :: "limiter_key \<Rightarrow> limiter_call list \<Rightarrow> limiter_map \<Rightarrow> bool list" where
  "verdicts_for k calls limiter =
     map snd (filter (\<lambda>(c, v). call_key c = k) (zip calls (fst (run_calls calls limiter))))"


section \<open>The data of a warning event\<close>

text \<open>
  The classes below are imported by the trigger and declared outside the source files;
  their fields are the ones \<open>should_fire\<close> reads, typed as the spec's data model gives
  them (3): \<open>regarding\<close> is a reference with optional \<open>name\<close> and \<open>namespace\<close>, the
  payload carries the strings \<open>type\<close>, \<open>reason\<close> and \<open>message\<close>, and payload and
  \<open>regarding\<close> may be absent.
\<close>

record ObjectReference =
  name :: "string option"
  namespace :: "string option"

record Event =
  type :: string
  reason :: string
  message :: string
  regarding :: "ObjectReference option"

text \<open>
  A member of the enumeration \<open>K8sOperationType\<close> is represented by its \<open>.value\<close>, the
  operation's name; \<open>CREATE\<close>, \<open>UPDATE\<close> and \<open>DELETE\<close> are the members that
  \<open>scripts/generate_kubernetes_code.py\<close> names.
\<close>

datatype K8sOperationType = K8sOperationType (op_value: string)

abbreviation CREATE :: K8sOperationType where "CREATE \<equiv> K8sOperationType ''create''"
abbreviation UPDATE :: K8sOperationType where "UPDATE \<equiv> K8sOperationType ''update''"
abbreviation DELETE :: K8sOperationType where "DELETE \<equiv> K8sOperationType ''delete''"

record EventChangeEvent =
  operation :: K8sOperationType
  obj :: "Event option"

text \<open>
  What \<open>build_execution_event\<close> hands back is an \<open>EventChangeEvent\<close> or an execution
  event of another class; the incoming trigger event is a \<open>K8sTriggerEvent\<close>, whose
  payload \<open>'p\<close> the trigger never inspects itself, or a trigger event of another class.
\<close>

datatype ExecutionBaseEvent = IsEventChangeEvent EventChangeEvent | OtherExecutionEvent

datatype 'p TriggerEvent = K8sTriggerEvent 'p | OtherTriggerEvent

text \<open>
  Modelled from the spec: \<open>EventChangeEvent.get_event\<close> is generated code outside the
  source files; the spec's step 4 reads the event type off the notification payload.
  It is called only after the payload has been found present.
\<close>

definition get_event :: "EventChangeEvent \<Rightarrow> Event option" where
  "get_event exec_event = obj exec_event"


section \<open>The trigger\<close>

record WarningEventTrigger =
  name_prefix :: "string option"
  namespace_prefix :: "string option"
  labels_selector :: "string option"
  rate_limit :: int
  operations :: "string list option"
  exclude :: "string list"
  "include" :: "string list"

text \<open>\<open>WarningEventTrigger.__init__\<close> and the three subclasses' \<open>__init__\<close>.\<close>

definition WarningEventTrigger_init ::
  "string option \<Rightarrow> string option \<Rightarrow> string option \<Rightarrow> int \<Rightarrow> string list option \<Rightarrow>
     string list \<Rightarrow> string list \<Rightarrow> WarningEventTrigger" where
  "WarningEventTrigger_init name_prefix' namespace_prefix' labels_selector' rate_limit'
       operations' exclude' include' =
     \<lparr>name_prefix = name_prefix', namespace_prefix = namespace_prefix',
      labels_selector = labels_selector', rate_limit = rate_limit',
      operations = operations', exclude = exclude', include = include'\<rparr>"

definition WarningEventCreateTrigger_init ::
  "string option \<Rightarrow> string option \<Rightarrow> string option \<Rightarrow> int \<Rightarrow>
     string list \<Rightarrow> string list \<Rightarrow> WarningEventTrigger" where
  "WarningEventCreateTrigger_init name_prefix' namespace_prefix' labels_selector' rate_limit'
       exclude' include' =
     WarningEventTrigger_init name_prefix' namespace_prefix' labels_selector' rate_limit'
       (Some [''create'']) exclude' include'"

definition WarningEventUpdateTrigger_init ::
  "string option \<Rightarrow> string option \<Rightarrow> string option \<Rightarrow> int \<Rightarrow>
     string list \<Rightarrow> string list \<Rightarrow> WarningEventTrigger" where
  "WarningEventUpdateTrigger_init name_prefix' namespace_prefix' labels_selector' rate_limit'
       exclude' include' =
     WarningEventTrigger_init name_prefix' namespace_prefix' labels_selector' rate_limit'
       (Some [''update'']) exclude' include'"

definition WarningEventDeleteTrigger_init ::
  "string option \<Rightarrow> string option \<Rightarrow> string option \<Rightarrow> int \<Rightarrow>
     string list \<Rightarrow> string list \<Rightarrow> WarningEventTrigger" where
  "WarningEventDeleteTrigger_init name_prefix' namespace_prefix' labels_selector' rate_limit'
       exclude' include' =
     WarningEventTrigger_init name_prefix' namespace_prefix' labels_selector' rate_limit'
       (Some [''delete'']) exclude' include'"

text \<open>
  The collaborators that \<open>should_fire\<close> calls and that live outside the source files,
  taken as parameters: the inherited \<open>EventAllChangesTrigger.should_fire\<close> (the
  structural matcher), the inherited \<open>build_execution_event\<close> (\<open>None\<close> when it builds
  nothing), \<open>TopServiceResolver.guess_service_key\<close>, and
  \<open>RateLimiter.mark_and_test\<close>, a function of its three arguments that reads and
  updates a shared state \<open>'s\<close>. That state is the only one \<open>should_fire\<close> touches,
  so it is passed in and returned.
\<close>

record ('p, 's) collaborators =
  base_should_fire :: "WarningEventTrigger \<Rightarrow> 'p TriggerEvent \<Rightarrow> string \<Rightarrow> bool"
  build_execution_event :: "WarningEventTrigger \<Rightarrow> 'p \<Rightarrow> ExecutionBaseEvent option"
  guess_service_key :: "string \<Rightarrow> string \<Rightarrow> string option"
  RateLimiter_mark_and_test :: "string \<Rightarrow> string \<Rightarrow> int \<Rightarrow> 's \<Rightarrow> bool \<times> 's"

text \<open>
  \<open>WarningEventTrigger.should_fire\<close>. The source's early returns are the branches
  that give \<open>(False, limiter)\<close>, the limiter's state as it was; the last branch is the
  source's final \<open>return RateLimiter.mark_and_test(...)\<close>.
\<close>

definition should_fire ::
  "('p, 's) collaborators \<Rightarrow> WarningEventTrigger \<Rightarrow> 'p TriggerEvent \<Rightarrow> string \<Rightarrow>
     's \<Rightarrow> bool \<times> 's" where
  "should_fire env self event playbook_id limiter =
     (if \<not> base_should_fire env self event playbook_id then (False, limiter)
      else case event of
        OtherTriggerEvent \<Rightarrow> (False, limiter)
      | K8sTriggerEvent payload \<Rightarrow>
         (case build_execution_event env self payload of
            None \<Rightarrow> (False, limiter)
          | Some OtherExecutionEvent \<Rightarrow> (False, limiter)
          | Some (IsEventChangeEvent exec_event) \<Rightarrow>
             (case obj exec_event of
                None \<Rightarrow> (False, limiter)
              | Some ob \<Rightarrow>
                 (case regarding ob of
                    None \<Rightarrow> (False, limiter)
                  | Some reg \<Rightarrow>
                      if map_option type (get_event exec_event) \<noteq> Some ''Warning''
                      then (False, limiter)
                      else if (case operations self of
                                 None \<Rightarrow> False
                               | Some ops \<Rightarrow>
                                   ops \<noteq> [] \<and> op_value (operation exec_event) \<notin> set ops)
                      then (False, limiter)
                      else
                        let event_content = lower (reason ob @ message ob) in
                        if list_ex (\<lambda>exclusion. str_contains event_content (lower exclusion))
                             (exclude self)
                        then (False, limiter)
                        else if include self \<noteq> [] \<and>
                                filter (\<lambda>inclusion. str_contains event_content (lower inclusion))
                                  (include self) = []
                        then (False, limiter)
                        else
                          let name' = if_truthy_else (name reg) '''';
                              namespace' = if_truthy_else (namespace reg) '''';
                              service_key = guess_service_key env name' namespace'
                          in RateLimiter_mark_and_test env
                               (''WarningEventTrigger_'' @ playbook_id @ ''_'' @ reason ob)
                               (if_truthy_else service_key (namespace' @ '':'' @ name'))
                               (rate_limit self) limiter))))"

text \<open>
  The conditions of the early returns at lines 55, 60 to 62 and 65 to 68 of the source,
  named so that the theorems can refer to them.
\<close>

definition operation_denied :: "WarningEventTrigger \<Rightarrow> EventChangeEvent \<Rightarrow> bool" where
  "operation_denied self exec_event \<longleftrightarrow>
     (case operations self of
        None \<Rightarrow> False
      | Some ops \<Rightarrow> ops \<noteq> [] \<and> op_value (operation exec_event) \<notin> set ops)"

definition exclusion_found :: "WarningEventTrigger \<Rightarrow> Event \<Rightarrow> bool" where
  "exclusion_found self ob \<longleftrightarrow>
     list_ex (\<lambda>exclusion. str_contains (lower (reason ob @ message ob)) (lower exclusion))
       (exclude self)"

definition inclusion_missing :: "WarningEventTrigger \<Rightarrow> Event \<Rightarrow> bool" where
  "inclusion_missing self ob \<longleftrightarrow>
     include self \<noteq> [] \<and>
     filter (\<lambda>inclusion. str_contains (lower (reason ob @ message ob)) (lower inclusion))
       (include self) = []"

text \<open>
  An event is denied by the predicate steps when one of the early returns of lines 37 to
  68 is taken.
\<close>

definition denied_by_predicates ::
  "('p, 's) collaborators \<Rightarrow> WarningEventTrigger \<Rightarrow> 'p TriggerEvent \<Rightarrow> string \<Rightarrow> bool" where
  "denied_by_predicates env self event playbook_id \<longleftrightarrow>
     \<not> base_should_fire env self event playbook_id \<or>
     (case event of
        OtherTriggerEvent \<Rightarrow> True
      | K8sTriggerEvent payload \<Rightarrow>
         (case build_execution_event env self payload of
            None \<Rightarrow> True
          | Some OtherExecutionEvent \<Rightarrow> True
          | Some (IsEventChangeEvent exec_event) \<Rightarrow>
             (case obj exec_event of
                None \<Rightarrow> True
              | Some ob \<Rightarrow>
                  regarding ob = None \<or> type ob \<noteq> ''Warning'' \<or>
                  operation_denied self exec_event \<or> exclusion_found self ob \<or>
                  inclusion_missing self ob)))"

text \<open>
  A rate limiter that only records its calls: the state is the list of calls made so
  far, and every call passes. It is used to count the calls that \<open>should_fire\<close> makes.
\<close>

definition recording_limiter ::
  "string \<Rightarrow> string \<Rightarrow> int \<Rightarrow> (string \<times> string \<times> int) list \<Rightarrow>
     bool \<times> (string \<times> string \<times> int) list" where
  "recording_limiter bucket_key discriminator_key window_seconds calls =
     (True, calls @ [(bucket_key, discriminator_key, window_seconds)])"


section \<open>The spec's end-to-end scenario\<close>

text \<open>
  The event of the scenario in the spec's section 8, and collaborators for it: the
  structural matcher accepts, the payload of the trigger event is the change event
  itself, the resolver knows no service, and the rate limiter is the given one.
\<close>

definition scenario_event :: Event where
  "scenario_event =
     \<lparr>type = ''Warning'', reason = ''BackOff'', message = ''CrashLoopBackOff'',
      regarding = Some \<lparr>name = Some ''p1'', namespace = Some ''n1''\<rparr>\<rparr>"

definition scenario_collaborators ::
  "(string \<Rightarrow> string \<Rightarrow> int \<Rightarrow> 's \<Rightarrow> bool \<times> 's) \<Rightarrow> (EventChangeEvent, 's) collaborators" where
  "scenario_collaborators limiter_fn =
     \<lparr>base_should_fire = (\<lambda>self event playbook_id. True),
      build_execution_event = (\<lambda>self payload. Some (IsEventChangeEvent payload)),
      guess_service_key = (\<lambda>name namespace. None),
      RateLimiter_mark_and_test = limiter_fn\<rparr>"


section \<open>The rate limiter's windows\<close>

lemma mark_and_test_other_key:
  "(b, d) \<noteq> k \<Longrightarrow> snd (mark_and_test now b d w m) k = m k"
  by (simp add: mark_and_test_def Let_def split: option.split)

lemma mark_and_test_cong:
  "m (b, d) = m' (b, d) \<Longrightarrow>
     fst (mark_and_test now b d w m) = fst (mark_and_test now b d w m') \<and>
     snd (mark_and_test now b d w m) (b, d) = snd (mark_and_test now b d w m') (b, d)"
  by (simp add: mark_and_test_def Let_def split: option.split)

lemma mark_and_test_opens:
  "m (b, d) = None \<or> (\<exists>start. m (b, d) = Some start \<and> window_expired start w now) \<Longrightarrow>
     mark_and_test now b d w m = (True, m((b, d) \<mapsto> now))"
  by (auto simp: mark_and_test_def)

lemma mark_and_test_open:
  "m (b, d) = Some start \<Longrightarrow> \<not> window_expired start w now \<Longrightarrow>
     mark_and_test now b d w m = (False, m)"
  by (simp add: mark_and_test_def)

lemma run_calls_Cons:
  "run_calls ((now, b, d, w) # cs) m =
     (fst (mark_and_test now b d w m) # fst (run_calls cs (snd (mark_and_test now b d w m))),
      snd (run_calls cs (snd (mark_and_test now b d w m))))"
  by (simp add: Let_def split: prod.split)

lemma run_calls_append:
  "run_calls (cs @ ds) m =
     (fst (run_calls cs m) @ fst (run_calls ds (snd (run_calls cs m))),
      snd (run_calls ds (snd (run_calls cs m))))"
proof (induction cs arbitrary: m)
  case Nil
  then show ?case by simp
next
  case (Cons c cs)
  obtain now b d w where c: "c = (now, b, d, w)" by (cases c) auto
  show ?case
    unfolding c by (simp add: run_calls_Cons Cons.IH del: run_calls.simps)
qed

lemma length_run_calls: "length (fst (run_calls cs m)) = length cs"
proof (induction cs arbitrary: m)
  case Nil
  then show ?case by simp
next
  case (Cons c cs)
  obtain now b d w where c: "c = (now, b, d, w)" by (cases c) auto
  show ?case
    unfolding c by (simp add: run_calls_Cons Cons.IH del: run_calls.simps)
qed

lemma verdicts_for_Nil: "verdicts_for k [] m = []"
  by (simp add: verdicts_for_def)

lemma verdicts_for_Cons:
  "verdicts_for k ((now, b, d, w) # cs) m =
     (if (b, d) = k
      then fst (mark_and_test now b d w m) # verdicts_for k cs (snd (mark_and_test now b d w m))
      else verdicts_for k cs (snd (mark_and_test now b d w m)))"
  by (simp add: verdicts_for_def run_calls_Cons del: run_calls.simps)

lemma verdicts_for_append:
  "verdicts_for k (cs @ ds) m
     = verdicts_for k cs m @ verdicts_for k ds (snd (run_calls cs m))"
  by (simp add: verdicts_for_def run_calls_append length_run_calls)

lemma verdicts_for_filter:
  "m k = m' k \<Longrightarrow>
     verdicts_for k cs m = fst (run_calls (filter (\<lambda>c. call_key c = k) cs) m')"
proof (induction cs arbitrary: m m')
  case Nil
  then show ?case by (simp add: verdicts_for_Nil)
next
  case (Cons c cs)
  obtain now b d w where c: "c = (now, b, d, w)" by (cases c) auto
  let ?n = "snd (mark_and_test now b d w m)"
  let ?n' = "snd (mark_and_test now b d w m')"
  show ?case
  proof (cases "(b, d) = k")
    case True
    have eq: "m (b, d) = m' (b, d)" using Cons.prems True by simp
    have v: "fst (mark_and_test now b d w m) = fst (mark_and_test now b d w m')"
      using eq mark_and_test_cong [of m b d m' now w] by blast
    have "?n (b, d) = ?n' (b, d)"
      using eq mark_and_test_cong [of m b d m' now w] by blast
    then have s: "?n k = ?n' k" using True by simp
    have ih: "verdicts_for k cs ?n = fst (run_calls (filter (\<lambda>c. call_key c = k) cs) ?n')"
      using s by (rule Cons.IH [of ?n ?n'])
    have "verdicts_for k (c # cs) m = fst (mark_and_test now b d w m) # verdicts_for k cs ?n"
      unfolding c using True by (simp add: verdicts_for_Cons)
    also have "\<dots> = fst (mark_and_test now b d w m')
                       # fst (run_calls (filter (\<lambda>c. call_key c = k) cs) ?n')"
      by (simp only: v ih)
    also have "\<dots> = fst (run_calls (filter (\<lambda>c. call_key c = k) (c # cs)) m')"
      unfolding c using True by (simp add: run_calls_Cons del: run_calls.simps)
    finally show ?thesis .
  next
    case False
    have s: "?n k = m' k"
      using False Cons.prems by (simp add: mark_and_test_other_key)
    have "verdicts_for k (c # cs) m = verdicts_for k cs ?n"
      unfolding c using False by (simp add: verdicts_for_Cons)
    also have "\<dots> = fst (run_calls (filter (\<lambda>c. call_key c = k) cs) m')"
      using s by (rule Cons.IH [of ?n m'])
    also have "\<dots> = fst (run_calls (filter (\<lambda>c. call_key c = k) (c # cs)) m')"
      unfolding c using False by simp
    finally show ?thesis .
  qed
qed

lemma run_calls_window_open:
  "m k = Some start \<Longrightarrow>
   \<forall>c \<in> set cs. call_key c = k \<longrightarrow> \<not> window_expired start (call_window c) (call_now c) \<Longrightarrow>
     verdicts_for k cs m = replicate (length (filter (\<lambda>c. call_key c = k) cs)) False \<and>
     snd (run_calls cs m) k = Some start"
proof (induction cs arbitrary: m)
  case Nil
  then show ?case by (simp add: verdicts_for_Nil)
next
  case (Cons c cs)
  obtain now b d w where c: "c = (now, b, d, w)" by (cases c) auto
  let ?n = "snd (mark_and_test now b d w m)"
  have rest: "\<forall>c \<in> set cs. call_key c = k \<longrightarrow>
       \<not> window_expired start (call_window c) (call_now c)"
    using Cons.prems(2) by simp
  show ?case
  proof (cases "(b, d) = k")
    case True
    have "\<not> window_expired start w now" using Cons.prems(2) True by (simp add: c)
    then have step: "mark_and_test now b d w m = (False, m)"
      using Cons.prems(1) True by (simp add: mark_and_test_open)
    have "verdicts_for k cs m = replicate (length (filter (\<lambda>c. call_key c = k) cs)) False \<and>
        snd (run_calls cs m) k = Some start"
      using Cons.prems(1) rest by (rule Cons.IH)
    then show ?thesis
      using True step by (simp add: c verdicts_for_Cons run_calls_Cons del: run_calls.simps)
  next
    case False
    have "?n k = Some start"
      using False Cons.prems(1) by (simp add: mark_and_test_other_key)
    then have "verdicts_for k cs ?n = replicate (length (filter (\<lambda>c. call_key c = k) cs)) False \<and>
        snd (run_calls cs ?n) k = Some start"
      using rest by (rule Cons.IH)
    then show ?thesis
      using False by (simp add: c verdicts_for_Cons run_calls_Cons del: run_calls.simps)
  qed
qed

lemma window_life_cycle:
  assumes opens: "m (b, d) = None \<or> (\<exists>start. m (b, d) = Some start \<and> window_expired start w now)"
    and inside: "\<forall>c \<in> set cs. call_key c = (b, d) \<longrightarrow>
        \<not> window_expired now (call_window c) (call_now c)"
    and after: "window_expired now w' now'"
  shows "verdicts_for (b, d) ((now, b, d, w) # cs @ [(now', b, d, w')]) m
           = True # replicate (length (filter (\<lambda>c. call_key c = (b, d)) cs)) False @ [True]"
    and "snd (run_calls ((now, b, d, w) # cs @ [(now', b, d, w')]) m) (b, d) = Some now'"
proof -
  let ?m0 = "m((b, d) \<mapsto> now)"
  let ?m1 = "snd (run_calls cs ?m0)"
  have first: "mark_and_test now b d w m = (True, ?m0)"
    using opens by (rule mark_and_test_opens)
  have anchored: "?m0 (b, d) = Some now" by simp
  have mid: "verdicts_for (b, d) cs ?m0
        = replicate (length (filter (\<lambda>c. call_key c = (b, d)) cs)) False \<and>
      ?m1 (b, d) = Some now"
    using anchored inside by (rule run_calls_window_open)
  then have "?m1 (b, d) = Some now \<and> window_expired now w' now'" using after by simp
  then have "\<exists>start. ?m1 (b, d) = Some start \<and> window_expired start w' now'" by blast
  then have last: "mark_and_test now' b d w' ?m1 = (True, ?m1((b, d) \<mapsto> now'))"
    using mark_and_test_opens [of ?m1 b d w' now'] by blast
  show "verdicts_for (b, d) ((now, b, d, w) # cs @ [(now', b, d, w')]) m
           = True # replicate (length (filter (\<lambda>c. call_key c = (b, d)) cs)) False @ [True]"
    using first mid last
    by (simp add: verdicts_for_Cons verdicts_for_append verdicts_for_Nil del: run_calls.simps)
  show "snd (run_calls ((now, b, d, w) # cs @ [(now', b, d, w')]) m) (b, d) = Some now'"
    using first last
    by (simp add: run_calls_Cons run_calls_append del: run_calls.simps(2))
qed

text \<open>
  Claim C1. For every key, a pair of bucket key and discriminator key, and every window
  length: take a call on the key that opens a window (the key has no window yet, or its
  window has expired), followed by any calls on any keys in which every call on this key
  arrives while that window is open, followed by a call on the key after the window has
  expired. The first call returns \<open>True\<close>, every call on the key in between returns
  \<open>False\<close>, and the last call returns \<open>True\<close> again and opens a new window anchored at
  its own time. Calls with different keys do not affect each other's verdicts: a call on
  another pair, put anywhere into a run, changes no verdict on this key; a single call on
  another pair does not change the verdict of the next call on this key; and the verdicts
  on a key are those of the run in which only the calls on that key are made.
\<close>

theorem mark_and_test_window:
  "((limiter (bucket_key, discriminator_key) = None \<or>
     (\<exists>start. limiter (bucket_key, discriminator_key) = Some start \<and>
        window_expired start window_seconds now)) \<and>
    (\<forall>c \<in> set calls. call_key c = (bucket_key, discriminator_key) \<longrightarrow>
        \<not> window_expired now (call_window c) (call_now c)) \<and>
    window_expired now window_seconds' now' \<longrightarrow>
      verdicts_for (bucket_key, discriminator_key)
        ((now, bucket_key, discriminator_key, window_seconds) # calls
           @ [(now', bucket_key, discriminator_key, window_seconds')]) limiter
        = True # replicate
            (length (filter (\<lambda>c. call_key c = (bucket_key, discriminator_key)) calls)) False
          @ [True] \<and>
      snd (run_calls
        ((now, bucket_key, discriminator_key, window_seconds) # calls
           @ [(now', bucket_key, discriminator_key, window_seconds')]) limiter)
        (bucket_key, discriminator_key) = Some now') \<and>
   ((other_bucket, other_discriminator) \<noteq> (bucket_key, discriminator_key) \<longrightarrow>
      verdicts_for (bucket_key, discriminator_key)
        (before @ (other_now, other_bucket, other_discriminator, other_window) # after) limiter
        = verdicts_for (bucket_key, discriminator_key) (before @ after) limiter \<and>
      fst (mark_and_test now bucket_key discriminator_key window_seconds
             (snd (mark_and_test other_now other_bucket other_discriminator other_window limiter)))
        = fst (mark_and_test now bucket_key discriminator_key window_seconds limiter)) \<and>
   verdicts_for (bucket_key, discriminator_key) calls limiter
     = fst (run_calls (filter (\<lambda>c. call_key c = (bucket_key, discriminator_key)) calls) limiter)"
proof (intro conjI impI)
  assume a: "(limiter (bucket_key, discriminator_key) = None \<or>
     (\<exists>start. limiter (bucket_key, discriminator_key) = Some start \<and>
        window_expired start window_seconds now)) \<and>
    (\<forall>c \<in> set calls. call_key c = (bucket_key, discriminator_key) \<longrightarrow>
        \<not> window_expired now (call_window c) (call_now c)) \<and>
    window_expired now window_seconds' now'"
  then have opens: "limiter (bucket_key, discriminator_key) = None \<or>
     (\<exists>start. limiter (bucket_key, discriminator_key) = Some start \<and>
        window_expired start window_seconds now)"
    and inside: "\<forall>c \<in> set calls. call_key c = (bucket_key, discriminator_key) \<longrightarrow>
        \<not> window_expired now (call_window c) (call_now c)"
    and after: "window_expired now window_seconds' now'"
    by blast+
  show "verdicts_for (bucket_key, discriminator_key)
        ((now, bucket_key, discriminator_key, window_seconds) # calls
           @ [(now', bucket_key, discriminator_key, window_seconds')]) limiter
        = True # replicate
            (length (filter (\<lambda>c. call_key c = (bucket_key, discriminator_key)) calls)) False
          @ [True]"
    using opens inside after by (rule window_life_cycle(1))
  show "snd (run_calls
        ((now, bucket_key, discriminator_key, window_seconds) # calls
           @ [(now', bucket_key, discriminator_key, window_seconds')]) limiter)
        (bucket_key, discriminator_key) = Some now'"
    using opens inside after by (rule window_life_cycle(2))
next
  assume other: "(other_bucket, other_discriminator) \<noteq> (bucket_key, discriminator_key)"
  have "verdicts_for (bucket_key, discriminator_key)
        (before @ (other_now, other_bucket, other_discriminator, other_window) # after) limiter
      = fst (run_calls (filter (\<lambda>c. call_key c = (bucket_key, discriminator_key))
          (before @ (other_now, other_bucket, other_discriminator, other_window) # after)) limiter)"
    by (rule verdicts_for_filter) simp
  also have "\<dots> = fst (run_calls (filter (\<lambda>c. call_key c = (bucket_key, discriminator_key))
          (before @ after)) limiter)"
    using other by auto
  also have "\<dots> = verdicts_for (bucket_key, discriminator_key) (before @ after) limiter"
    by (rule verdicts_for_filter [symmetric]) simp
  finally show "verdicts_for (bucket_key, discriminator_key)
        (before @ (other_now, other_bucket, other_discriminator, other_window) # after) limiter
        = verdicts_for (bucket_key, discriminator_key) (before @ after) limiter" .
  have "snd (mark_and_test other_now other_bucket other_discriminator other_window limiter)
          (bucket_key, discriminator_key) = limiter (bucket_key, discriminator_key)"
    using other by (rule mark_and_test_other_key)
  then show "fst (mark_and_test now bucket_key discriminator_key window_seconds
             (snd (mark_and_test other_now other_bucket other_discriminator other_window limiter)))
        = fst (mark_and_test now bucket_key discriminator_key window_seconds limiter)"
    using mark_and_test_cong by blast
next
  show "verdicts_for (bucket_key, discriminator_key) calls limiter
     = fst (run_calls (filter (\<lambda>c. call_key c = (bucket_key, discriminator_key)) calls) limiter)"
    by (rule verdicts_for_filter) simp
qed

theorem mark_and_test_window_witness:
  "verdicts_for (''B'', ''K'')
     [(0, ''B'', ''K'', 60), (30, ''B'', ''K'', 60), (40, ''B'', ''K2'', 60),
      (50, ''B'', ''K'', 60), (61, ''B'', ''K'', 60)] Map.empty
     = [True, False, False, True] \<and>
   snd (run_calls
     [(0, ''B'', ''K'', 60), (30, ''B'', ''K'', 60), (40, ''B'', ''K2'', 60),
      (50, ''B'', ''K'', 60), (61, ''B'', ''K'', 60)] Map.empty) (''B'', ''K'') = Some 61 \<and>
   verdicts_for (''B'', ''K'')
     ([(0, ''B'', ''K'', 60), (30, ''B'', ''K'', 60)] @ (40, ''B'', ''K2'', 60) #
      [(50, ''B'', ''K'', 60), (61, ''B'', ''K'', 60)]) Map.empty
     = verdicts_for (''B'', ''K'')
     ([(0, ''B'', ''K'', 60), (30, ''B'', ''K'', 60)] @
      [(50, ''B'', ''K'', 60), (61, ''B'', ''K'', 60)]) Map.empty \<and>
   fst (mark_and_test 30 ''A'' ''BC'' 60 (snd (mark_and_test 0 ''AB'' ''C'' 60 Map.empty)))
     = fst (mark_and_test 30 ''A'' ''BC'' 60 Map.empty) \<and>
   verdicts_for (''B'', ''K2'')
     [(0, ''B'', ''K'', 60), (30, ''B'', ''K'', 60), (40, ''B'', ''K2'', 60)] Map.empty
     = fst (run_calls [(40, ''B'', ''K2'', 60)] Map.empty)"
proof -
  let ?inside = "[(30, ''B'', ''K'', 60), (40, ''B'', ''K2'', 60), (50::int, ''B'', ''K'', 60::int)]"
  have opens: "Map.empty (''B'', ''K'') = (None :: int option)" by simp
  have inside: "\<forall>c \<in> set ?inside. call_key c = (''B'', ''K'') \<longrightarrow>
      \<not> window_expired 0 (call_window c) (call_now c)"
    by (simp add: window_expired_def)
  have after: "window_expired 0 60 61" by (simp add: window_expired_def)
  have other: "(''B'', ''K2'') \<noteq> (''B'', ''K'')" "(''AB'', ''C'') \<noteq> (''A'', ''BC'')" by simp_all
  note life = mark_and_test_window
    [of Map.empty "''B''" "''K''" 60 0 ?inside 60 61, THEN conjunct1]
  note apart = mark_and_test_window
    [of Map.empty "''B''" "''K''" _ _ _ _ _ "''B''" "''K2''"
        "[(0, ''B'', ''K'', 60), (30, ''B'', ''K'', 60)]" 40 60
        "[(50, ''B'', ''K'', 60), (61, ''B'', ''K'', 60)]",
     THEN conjunct2, THEN conjunct1]
  note apart' = mark_and_test_window
    [of Map.empty "''A''" "''BC''" 60 30 _ _ _ "''AB''" "''C''" "[]" 0 60 "[]",
     THEN conjunct2, THEN conjunct1]
  note only = mark_and_test_window
    [of Map.empty "''B''" "''K2''" _ _
        "[(0, ''B'', ''K'', 60), (30, ''B'', ''K'', 60), (40, ''B'', ''K2'', 60)]",
     THEN conjunct2, THEN conjunct2]
  have w12: "verdicts_for (''B'', ''K'')
       [(0, ''B'', ''K'', 60), (30, ''B'', ''K'', 60), (40, ''B'', ''K2'', 60),
        (50, ''B'', ''K'', 60), (61, ''B'', ''K'', 60)] Map.empty
       = [True, False, False, True] \<and>
     snd (run_calls
       [(0, ''B'', ''K'', 60), (30, ''B'', ''K'', 60), (40, ''B'', ''K2'', 60),
        (50, ''B'', ''K'', 60), (61, ''B'', ''K'', 60)] Map.empty) (''B'', ''K'') = Some 61"
    using life opens inside after by (simp del: run_calls.simps add: numeral_eq_Suc)
  have w3: "verdicts_for (''B'', ''K'')
       ([(0, ''B'', ''K'', 60), (30, ''B'', ''K'', 60)] @ (40, ''B'', ''K2'', 60) #
        [(50, ''B'', ''K'', 60), (61, ''B'', ''K'', 60)]) Map.empty
       = verdicts_for (''B'', ''K'')
       ([(0, ''B'', ''K'', 60), (30, ''B'', ''K'', 60)] @
        [(50, ''B'', ''K'', 60), (61, ''B'', ''K'', 60)]) Map.empty"
    using apart other(1) by blast
  have w4: "fst (mark_and_test 30 ''A'' ''BC'' 60 (snd (mark_and_test 0 ''AB'' ''C'' 60 Map.empty)))
       = fst (mark_and_test 30 ''A'' ''BC'' 60 Map.empty)"
    using apart' other(2) by blast
  have w5: "verdicts_for (''B'', ''K2'')
       [(0, ''B'', ''K'', 60), (30, ''B'', ''K'', 60), (40, ''B'', ''K2'', 60)] Map.empty
       = fst (run_calls [(40, ''B'', ''K2'', 60)] Map.empty)"
    using only by (simp del: run_calls.simps)
  from w12 w3 w4 w5 show ?thesis by blast
qed


section \<open>The decision chain of the trigger\<close>

text \<open>
  The substring test is the usual one: \<open>sub in s\<close> holds exactly when \<open>s\<close> is some
  prefix, then \<open>sub\<close>, then some suffix.
\<close>

lemma startswith_iff: "startswith s sub \<longleftrightarrow> (\<exists>q. s = sub @ q)"
  by (induction s sub rule: startswith.induct) auto

lemma str_contains_iff: "str_contains s sub \<longleftrightarrow> (\<exists>p q. s = p @ sub @ q)"
proof (induction s)
  case Nil
  then show ?case by auto
next
  case (Cons x s)
  show ?case
  proof
    assume "str_contains (x # s) sub"
    then consider "startswith (x # s) sub" | "str_contains s sub" by auto
    then show "\<exists>p q. x # s = p @ sub @ q"
    proof cases
      case 1
      then obtain q where "x # s = sub @ q" by (auto simp: startswith_iff)
      then have "x # s = [] @ sub @ q" by simp
      then show ?thesis by blast
    next
      case 2
      then obtain p q where "s = p @ sub @ q" using Cons.IH by blast
      then have "x # s = (x # p) @ sub @ q" by simp
      then show ?thesis by blast
    qed
  next
    assume "\<exists>p q. x # s = p @ sub @ q"
    then obtain p q where pq: "x # s = p @ sub @ q" by blast
    show "str_contains (x # s) sub"
    proof (cases p)
      case Nil
      with pq have "startswith (x # s) sub" by (auto simp: startswith_iff)
      then show ?thesis by simp
    next
      case (Cons y p')
      with pq have "s = p' @ sub @ q" by simp
      then have "str_contains s sub" using Cons.IH by blast
      then show ?thesis by simp
    qed
  qed
qed

text \<open>
  The two ways \<open>should_fire\<close> ends: an event denied by a predicate step gets \<open>False\<close>
  and the limiter's state back; an event that passes every step gets what the one call
  of the rate limiter returns.
\<close>

lemma should_fire_denied:
  "denied_by_predicates env self event playbook_id \<Longrightarrow>
     should_fire env self event playbook_id limiter = (False, limiter)"
  by (auto simp: denied_by_predicates_def should_fire_def operation_denied_def
        exclusion_found_def inclusion_missing_def get_event_def Let_def
      split: TriggerEvent.splits option.splits ExecutionBaseEvent.splits)

lemma should_fire_admitted:
  "base_should_fire env self (K8sTriggerEvent payload) playbook_id \<Longrightarrow>
   build_execution_event env self payload = Some (IsEventChangeEvent exec_event) \<Longrightarrow>
   obj exec_event = Some ob \<Longrightarrow> regarding ob = Some reg \<Longrightarrow> type ob = ''Warning'' \<Longrightarrow>
   \<not> operation_denied self exec_event \<Longrightarrow> \<not> exclusion_found self ob \<Longrightarrow>
   \<not> inclusion_missing self ob \<Longrightarrow>
     should_fire env self (K8sTriggerEvent payload) playbook_id limiter =
       RateLimiter_mark_and_test env
         (''WarningEventTrigger_'' @ playbook_id @ ''_'' @ reason ob)
         (if_truthy_else
            (guess_service_key env (if_truthy_else (name reg) '''')
               (if_truthy_else (namespace reg) ''''))
            (if_truthy_else (namespace reg) '''' @ '':'' @ if_truthy_else (name reg) ''''))
         (rate_limit self) limiter"
  by (auto simp: should_fire_def operation_denied_def exclusion_found_def
        inclusion_missing_def get_event_def Let_def)

lemma not_denied_shape:
  "\<not> denied_by_predicates env self event playbook_id \<Longrightarrow>
     \<exists>payload exec_event ob reg.
       event = K8sTriggerEvent payload \<and>
       base_should_fire env self (K8sTriggerEvent payload) playbook_id \<and>
       build_execution_event env self payload = Some (IsEventChangeEvent exec_event) \<and>
       obj exec_event = Some ob \<and> regarding ob = Some reg \<and> type ob = ''Warning'' \<and>
       \<not> operation_denied self exec_event \<and> \<not> exclusion_found self ob \<and>
       \<not> inclusion_missing self ob"
  by (auto simp: denied_by_predicates_def
      split: TriggerEvent.splits option.splits ExecutionBaseEvent.splits)


text \<open>The definitions that evaluating the scenario unfolds.\<close>

lemmas scenario_defs =
  scenario_collaborators_def scenario_event_def WarningEventTrigger_init_def
  WarningEventCreateTrigger_init_def WarningEventUpdateTrigger_init_def
  WarningEventDeleteTrigger_init_def recording_limiter_def lower_def lower_char_def
  operation_denied_def exclusion_found_def inclusion_missing_def

text \<open>
  Claim C2. An event whose payload has an event type other than \<open>Warning\<close> is denied,
  whatever its other fields, the rule's configuration and the collaborators are, and the
  limiter's state is left as it was.
\<close>

theorem should_fire_requires_warning:
  "build_execution_event env self payload = Some (IsEventChangeEvent exec_event) \<Longrightarrow>
   obj exec_event = Some ob \<Longrightarrow> type ob \<noteq> ''Warning'' \<Longrightarrow>
     should_fire env self (K8sTriggerEvent payload) playbook_id limiter = (False, limiter)"
  by (rule should_fire_denied) (simp add: denied_by_predicates_def)

theorem should_fire_requires_warning_witness:
  "type (scenario_event\<lparr>type := ''Normal''\<rparr>) \<noteq> ''Warning'' \<and>
   should_fire (scenario_collaborators recording_limiter)
     (WarningEventTrigger_init None None None 3600 None [] [])
     (K8sTriggerEvent \<lparr>operation = CREATE, obj = Some (scenario_event\<lparr>type := ''Normal''\<rparr>)\<rparr>)
     ''rule1'' [] = (False, [])"
proof -
  let ?env = "scenario_collaborators recording_limiter"
  let ?self = "WarningEventTrigger_init None None None 3600 None [] []"
  let ?exec = "\<lparr>operation = CREATE, obj = Some (scenario_event\<lparr>type := ''Normal''\<rparr>)\<rparr>"
  have built: "build_execution_event ?env ?self ?exec = Some (IsEventChangeEvent ?exec)"
    by (simp add: scenario_collaborators_def)
  have payload: "obj ?exec = Some (scenario_event\<lparr>type := ''Normal''\<rparr>)" by simp
  have normal: "type (scenario_event\<lparr>type := ''Normal''\<rparr>) \<noteq> ''Warning''" by simp
  from normal should_fire_requires_warning [OF built payload normal, of "''rule1''" "[]"]
  show ?thesis by simp
qed

text \<open>
  Claim C3. An event of an abnormal shape is denied, with \<open>False\<close> as the returned
  value: a trigger event that is not a \<open>K8sTriggerEvent\<close>, an execution event that is
  missing or is not an \<open>EventChangeEvent\<close>, an absent payload, an absent \<open>regarding\<close>.
\<close>

theorem should_fire_abnormal_shape:
  "should_fire env self OtherTriggerEvent playbook_id limiter = (False, limiter) \<and>
   (build_execution_event env self payload = None \<longrightarrow>
      should_fire env self (K8sTriggerEvent payload) playbook_id limiter = (False, limiter)) \<and>
   (build_execution_event env self payload = Some OtherExecutionEvent \<longrightarrow>
      should_fire env self (K8sTriggerEvent payload) playbook_id limiter = (False, limiter)) \<and>
   (build_execution_event env self payload = Some (IsEventChangeEvent exec_event) \<and>
    obj exec_event = None \<longrightarrow>
      should_fire env self (K8sTriggerEvent payload) playbook_id limiter = (False, limiter)) \<and>
   (build_execution_event env self payload = Some (IsEventChangeEvent exec_event) \<and>
    obj exec_event = Some ob \<and> regarding ob = None \<longrightarrow>
      should_fire env self (K8sTriggerEvent payload) playbook_id limiter = (False, limiter))"
proof -
  have "denied_by_predicates env self OtherTriggerEvent playbook_id"
    by (simp add: denied_by_predicates_def)
  then have other: "should_fire env self OtherTriggerEvent playbook_id limiter = (False, limiter)"
    by (rule should_fire_denied)
  have shape: "should_fire env self (K8sTriggerEvent payload) playbook_id limiter = (False, limiter)"
    if "build_execution_event env self payload = None \<or>
        build_execution_event env self payload = Some OtherExecutionEvent \<or>
        (build_execution_event env self payload = Some (IsEventChangeEvent exec_event) \<and>
         (obj exec_event = None \<or> (obj exec_event = Some ob \<and> regarding ob = None)))"
  proof (rule should_fire_denied)
    show "denied_by_predicates env self (K8sTriggerEvent payload) playbook_id"
      using that by (auto simp: denied_by_predicates_def)
  qed
  from other shape show ?thesis by blast
qed

theorem should_fire_abnormal_shape_witness:
  "should_fire (scenario_collaborators recording_limiter)
     (WarningEventTrigger_init None None None 3600 None [] [])
     OtherTriggerEvent ''rule1'' [] = (False, []) \<and>
   should_fire ((scenario_collaborators recording_limiter)
        \<lparr>build_execution_event := \<lambda>self payload. None\<rparr>)
     (WarningEventTrigger_init None None None 3600 None [] [])
     (K8sTriggerEvent \<lparr>operation = CREATE, obj = Some scenario_event\<rparr>) ''rule1'' []
     = (False, []) \<and>
   should_fire ((scenario_collaborators recording_limiter)
        \<lparr>build_execution_event := \<lambda>self payload. Some OtherExecutionEvent\<rparr>)
     (WarningEventTrigger_init None None None 3600 None [] [])
     (K8sTriggerEvent \<lparr>operation = CREATE, obj = Some scenario_event\<rparr>) ''rule1'' []
     = (False, []) \<and>
   should_fire (scenario_collaborators recording_limiter)
     (WarningEventTrigger_init None None None 3600 None [] [])
     (K8sTriggerEvent \<lparr>operation = CREATE, obj = None\<rparr>) ''rule1'' [] = (False, []) \<and>
   should_fire (scenario_collaborators recording_limiter)
     (WarningEventTrigger_init None None None 3600 None [] [])
     (K8sTriggerEvent \<lparr>operation = CREATE, obj = Some (scenario_event\<lparr>regarding := None\<rparr>)\<rparr>)
     ''rule1'' [] = (False, [])"
proof -
  let ?env = "scenario_collaborators recording_limiter"
  let ?self = "WarningEventTrigger_init None None None 3600 None [] []"
  let ?exec = "\<lparr>operation = CREATE, obj = Some scenario_event\<rparr>"
  let ?no_obj = "\<lparr>operation = CREATE, obj = None\<rparr>"
  let ?no_reg = "\<lparr>operation = CREATE, obj = Some (scenario_event\<lparr>regarding := None\<rparr>)\<rparr>"
  have w1: "should_fire ?env ?self OtherTriggerEvent ''rule1'' [] = (False, [])"
    using should_fire_abnormal_shape [of ?env ?self "''rule1''" "[]", THEN conjunct1] .
  have w2: "should_fire (?env\<lparr>build_execution_event := \<lambda>self payload. None\<rparr>) ?self
      (K8sTriggerEvent ?exec) ''rule1'' [] = (False, [])"
    using should_fire_abnormal_shape
      [of "?env\<lparr>build_execution_event := \<lambda>self payload. None\<rparr>" ?self "''rule1''" "[]" ?exec,
       THEN conjunct2, THEN conjunct1]
    by simp
  have w3: "should_fire (?env\<lparr>build_execution_event := \<lambda>self payload. Some OtherExecutionEvent\<rparr>)
      ?self (K8sTriggerEvent ?exec) ''rule1'' [] = (False, [])"
    using should_fire_abnormal_shape
      [of "?env\<lparr>build_execution_event := \<lambda>self payload. Some OtherExecutionEvent\<rparr>" ?self
          "''rule1''" "[]" ?exec,
       THEN conjunct2, THEN conjunct2, THEN conjunct1]
    by simp
  have w4: "should_fire ?env ?self (K8sTriggerEvent ?no_obj) ''rule1'' [] = (False, [])"
    using should_fire_abnormal_shape
      [of ?env ?self "''rule1''" "[]" ?no_obj ?no_obj,
       THEN conjunct2, THEN conjunct2, THEN conjunct2, THEN conjunct1]
    by (simp add: scenario_collaborators_def)
  have w5: "should_fire ?env ?self (K8sTriggerEvent ?no_reg) ''rule1'' [] = (False, [])"
    using should_fire_abnormal_shape
      [of ?env ?self "''rule1''" "[]" ?no_reg ?no_reg "scenario_event\<lparr>regarding := None\<rparr>",
       THEN conjunct2, THEN conjunct2, THEN conjunct2, THEN conjunct2]
    by (simp add: scenario_collaborators_def)
  from w1 w2 w3 w4 w5 show ?thesis by blast
qed

text \<open>
  Claim C4. With a non-empty \<open>operations\<close>, an event whose operation name is not in it
  is denied, whatever the content filters say. With \<open>operations\<close> absent or empty the
  operation filter denies nothing: an event that passes the other steps reaches the
  rate limiter whatever its operation is.
\<close>

theorem should_fire_operations_filter:
  "(build_execution_event env self payload = Some (IsEventChangeEvent exec_event) \<and>
    operations self = Some ops \<and> ops \<noteq> [] \<and> op_value (operation exec_event) \<notin> set ops \<longrightarrow>
      should_fire env self (K8sTriggerEvent payload) playbook_id limiter = (False, limiter)) \<and>
   ((operations self = None \<or> operations self = Some []) \<and>
    base_should_fire env self (K8sTriggerEvent payload) playbook_id \<and>
    build_execution_event env self payload = Some (IsEventChangeEvent exec_event) \<and>
    obj exec_event = Some ob \<and> regarding ob = Some reg \<and> type ob = ''Warning'' \<and>
    \<not> exclusion_found self ob \<and> \<not> inclusion_missing self ob \<longrightarrow>
      should_fire env self (K8sTriggerEvent payload) playbook_id limiter =
        RateLimiter_mark_and_test env
          (''WarningEventTrigger_'' @ playbook_id @ ''_'' @ reason ob)
          (if_truthy_else
             (guess_service_key env (if_truthy_else (name reg) '''')
                (if_truthy_else (namespace reg) ''''))
             (if_truthy_else (namespace reg) '''' @ '':'' @ if_truthy_else (name reg) ''''))
          (rate_limit self) limiter)"
proof (intro conjI impI)
  assume a: "build_execution_event env self payload = Some (IsEventChangeEvent exec_event) \<and>
    operations self = Some ops \<and> ops \<noteq> [] \<and> op_value (operation exec_event) \<notin> set ops"
  then have "operation_denied self exec_event" by (simp add: operation_denied_def)
  with a have "denied_by_predicates env self (K8sTriggerEvent payload) playbook_id"
    by (simp add: denied_by_predicates_def split: option.splits)
  then show "should_fire env self (K8sTriggerEvent payload) playbook_id limiter = (False, limiter)"
    by (rule should_fire_denied)
next
  assume a: "(operations self = None \<or> operations self = Some []) \<and>
    base_should_fire env self (K8sTriggerEvent payload) playbook_id \<and>
    build_execution_event env self payload = Some (IsEventChangeEvent exec_event) \<and>
    obj exec_event = Some ob \<and> regarding ob = Some reg \<and> type ob = ''Warning'' \<and>
    \<not> exclusion_found self ob \<and> \<not> inclusion_missing self ob"
  then have "\<not> operation_denied self exec_event" by (auto simp: operation_denied_def)
  with a show "should_fire env self (K8sTriggerEvent payload) playbook_id limiter =
        RateLimiter_mark_and_test env
          (''WarningEventTrigger_'' @ playbook_id @ ''_'' @ reason ob)
          (if_truthy_else
             (guess_service_key env (if_truthy_else (name reg) '''')
                (if_truthy_else (namespace reg) ''''))
             (if_truthy_else (namespace reg) '''' @ '':'' @ if_truthy_else (name reg) ''''))
          (rate_limit self) limiter"
    by (simp add: should_fire_admitted)
qed

theorem should_fire_operations_filter_witness:
  "should_fire (scenario_collaborators recording_limiter)
     (WarningEventTrigger_init None None None 60 (Some [''create'']) [] [''crash''])
     (K8sTriggerEvent \<lparr>operation = UPDATE, obj = Some scenario_event\<rparr>) ''rule1'' []
     = (False, []) \<and>
   should_fire (scenario_collaborators recording_limiter)
     (WarningEventTrigger_init None None None 60 None [] [''crash''])
     (K8sTriggerEvent \<lparr>operation = UPDATE, obj = Some scenario_event\<rparr>) ''rule1'' []
     = (True, [(''WarningEventTrigger_rule1_BackOff'', ''n1:p1'', 60)]) \<and>
   should_fire (scenario_collaborators recording_limiter)
     (WarningEventTrigger_init None None None 60 (Some []) [] [''crash''])
     (K8sTriggerEvent \<lparr>operation = UPDATE, obj = Some scenario_event\<rparr>) ''rule1'' []
     = (True, [(''WarningEventTrigger_rule1_BackOff'', ''n1:p1'', 60)])"
proof -
  let ?env = "scenario_collaborators recording_limiter"
  let ?exec = "\<lparr>operation = UPDATE, obj = Some scenario_event\<rparr>"
  let ?reg = "\<lparr>name = Some ''p1'', namespace = Some ''n1''\<rparr>"
  have w1: "should_fire ?env
      (WarningEventTrigger_init None None None 60 (Some [''create'']) [] [''crash''])
      (K8sTriggerEvent ?exec) ''rule1'' [] = (False, [])"
    using should_fire_operations_filter
      [of ?env "WarningEventTrigger_init None None None 60 (Some [''create'']) [] [''crash'']"
          ?exec ?exec "[''create'']" "''rule1''" "[]", THEN conjunct1]
    by (simp add: scenario_defs)
  have w2: "should_fire ?env
      (WarningEventTrigger_init None None None 60 None [] [''crash''])
      (K8sTriggerEvent ?exec) ''rule1'' []
      = (True, [(''WarningEventTrigger_rule1_BackOff'', ''n1:p1'', 60)])"
    using should_fire_operations_filter
      [of ?env "WarningEventTrigger_init None None None 60 None [] [''crash'']"
          ?exec ?exec _ "''rule1''" "[]" scenario_event ?reg, THEN conjunct2]
    by (simp add: scenario_defs)
  have w3: "should_fire ?env
      (WarningEventTrigger_init None None None 60 (Some []) [] [''crash''])
      (K8sTriggerEvent ?exec) ''rule1'' []
      = (True, [(''WarningEventTrigger_rule1_BackOff'', ''n1:p1'', 60)])"
    using should_fire_operations_filter
      [of ?env "WarningEventTrigger_init None None None 60 (Some []) [] [''crash'']"
          ?exec ?exec _ "''rule1''" "[]" scenario_event ?reg, THEN conjunct2]
    by (simp add: scenario_defs)
  from w1 w2 w3 show ?thesis by blast
qed

text \<open>
  Claim C5. If some string of \<open>exclude\<close>, lowercased, is a substring of the lowercased
  concatenation of the event's reason and message, the event is denied; nothing is
  assumed about \<open>include\<close>, so this holds also when the content matches a string of
  \<open>include\<close>.
\<close>

theorem should_fire_exclude:
  "build_execution_event env self payload = Some (IsEventChangeEvent exec_event) \<Longrightarrow>
   obj exec_event = Some ob \<Longrightarrow> exclusion \<in> set (exclude self) \<Longrightarrow>
   str_contains (lower (reason ob @ message ob)) (lower exclusion) \<Longrightarrow>
     should_fire env self (K8sTriggerEvent payload) playbook_id limiter = (False, limiter)"
proof (rule should_fire_denied)
  assume "exclusion \<in> set (exclude self)"
    and "str_contains (lower (reason ob @ message ob)) (lower exclusion)"
  then have "exclusion_found self ob"
    by (auto simp: exclusion_found_def list_ex_iff)
  moreover assume "build_execution_event env self payload = Some (IsEventChangeEvent exec_event)"
    and "obj exec_event = Some ob"
  ultimately show "denied_by_predicates env self (K8sTriggerEvent payload) playbook_id"
    by (simp add: denied_by_predicates_def)
qed

theorem should_fire_exclude_witness:
  "str_contains (lower (''FailedMount'' @ ''Timeout expired waiting for volumes'')) (lower ''timeout'') \<and>
   str_contains (lower (''FailedMount'' @ ''Timeout expired waiting for volumes'')) (lower ''mount'') \<and>
   should_fire (scenario_collaborators recording_limiter)
     (WarningEventTrigger_init None None None 3600 None [''oom'', ''timeout''] [''mount''])
     (K8sTriggerEvent \<lparr>operation = CREATE,
        obj = Some (scenario_event\<lparr>reason := ''FailedMount'',
                message := ''Timeout expired waiting for volumes''\<rparr>)\<rparr>)
     ''rule1'' [] = (False, [])"
proof -
  let ?env = "scenario_collaborators recording_limiter"
  let ?self = "WarningEventTrigger_init None None None 3600 None [''oom'', ''timeout''] [''mount'']"
  let ?ob = "scenario_event\<lparr>reason := ''FailedMount'',
                message := ''Timeout expired waiting for volumes''\<rparr>"
  let ?exec = "\<lparr>operation = CREATE, obj = Some ?ob\<rparr>"
  have built: "build_execution_event ?env ?self ?exec = Some (IsEventChangeEvent ?exec)"
    by (simp add: scenario_collaborators_def)
  have payload: "obj ?exec = Some ?ob" by simp
  have listed: "''timeout'' \<in> set (exclude ?self)"
    by (simp add: WarningEventTrigger_init_def)
  have found: "str_contains (lower (reason ?ob @ message ?ob)) (lower ''timeout'')"
    by (simp add: lower_def lower_char_def)
  have included: "str_contains (lower (''FailedMount'' @ ''Timeout expired waiting for volumes''))
      (lower ''mount'')"
    by (simp add: lower_def lower_char_def)
  from found included should_fire_exclude [OF built payload listed found, of "''rule1''" "[]"]
  show ?thesis by simp
qed

text \<open>
  Claim C6. With a non-empty \<open>include\<close>, an event is denied when no member of
  \<open>include\<close>, lowercased, is a substring of the lowercased concatenation of reason and
  message. When \<open>include\<close> is empty, or some member matches, the include filter denies
  nothing: an event that passes the other steps reaches the rate limiter.
\<close>

theorem should_fire_include_filter:
  "(build_execution_event env self payload = Some (IsEventChangeEvent exec_event) \<and>
    obj exec_event = Some ob \<and> include self \<noteq> [] \<and>
    (\<forall>inclusion \<in> set (include self).
        \<not> str_contains (lower (reason ob @ message ob)) (lower inclusion)) \<longrightarrow>
      should_fire env self (K8sTriggerEvent payload) playbook_id limiter = (False, limiter)) \<and>
   ((include self = [] \<or>
     (\<exists>inclusion \<in> set (include self).
        str_contains (lower (reason ob @ message ob)) (lower inclusion))) \<and>
    base_should_fire env self (K8sTriggerEvent payload) playbook_id \<and>
    build_execution_event env self payload = Some (IsEventChangeEvent exec_event) \<and>
    obj exec_event = Some ob \<and> regarding ob = Some reg \<and> type ob = ''Warning'' \<and>
    \<not> operation_denied self exec_event \<and> \<not> exclusion_found self ob \<longrightarrow>
      should_fire env self (K8sTriggerEvent payload) playbook_id limiter =
        RateLimiter_mark_and_test env
          (''WarningEventTrigger_'' @ playbook_id @ ''_'' @ reason ob)
          (if_truthy_else
             (guess_service_key env (if_truthy_else (name reg) '''')
                (if_truthy_else (namespace reg) ''''))
             (if_truthy_else (namespace reg) '''' @ '':'' @ if_truthy_else (name reg) ''''))
          (rate_limit self) limiter)"
proof (intro conjI impI)
  assume a: "build_execution_event env self payload = Some (IsEventChangeEvent exec_event) \<and>
    obj exec_event = Some ob \<and> include self \<noteq> [] \<and>
    (\<forall>inclusion \<in> set (include self).
        \<not> str_contains (lower (reason ob @ message ob)) (lower inclusion))"
  then have "inclusion_missing self ob"
    by (simp add: inclusion_missing_def filter_empty_conv)
  with a have "denied_by_predicates env self (K8sTriggerEvent payload) playbook_id"
    by (simp add: denied_by_predicates_def)
  then show "should_fire env self (K8sTriggerEvent payload) playbook_id limiter = (False, limiter)"
    by (rule should_fire_denied)
next
  assume a: "(include self = [] \<or>
     (\<exists>inclusion \<in> set (include self).
        str_contains (lower (reason ob @ message ob)) (lower inclusion))) \<and>
    base_should_fire env self (K8sTriggerEvent payload) playbook_id \<and>
    build_execution_event env self payload = Some (IsEventChangeEvent exec_event) \<and>
    obj exec_event = Some ob \<and> regarding ob = Some reg \<and> type ob = ''Warning'' \<and>
    \<not> operation_denied self exec_event \<and> \<not> exclusion_found self ob"
  then have "\<not> inclusion_missing self ob"
    by (auto simp: inclusion_missing_def filter_empty_conv)
  with a show "should_fire env self (K8sTriggerEvent payload) playbook_id limiter =
        RateLimiter_mark_and_test env
          (''WarningEventTrigger_'' @ playbook_id @ ''_'' @ reason ob)
          (if_truthy_else
             (guess_service_key env (if_truthy_else (name reg) '''')
                (if_truthy_else (namespace reg) ''''))
             (if_truthy_else (namespace reg) '''' @ '':'' @ if_truthy_else (name reg) ''''))
          (rate_limit self) limiter"
    by (simp add: should_fire_admitted)
qed

theorem should_fire_include_filter_witness:
  "should_fire (scenario_collaborators recording_limiter)
     (WarningEventTrigger_init None None None 60 None [] [''oom'', ''evicted''])
     (K8sTriggerEvent \<lparr>operation = CREATE, obj = Some scenario_event\<rparr>) ''rule1'' []
     = (False, []) \<and>
   should_fire (scenario_collaborators recording_limiter)
     (WarningEventTrigger_init None None None 60 None [] [])
     (K8sTriggerEvent \<lparr>operation = CREATE, obj = Some scenario_event\<rparr>) ''rule1'' []
     = (True, [(''WarningEventTrigger_rule1_BackOff'', ''n1:p1'', 60)]) \<and>
   should_fire (scenario_collaborators recording_limiter)
     (WarningEventTrigger_init None None None 60 None [] [''oom'', ''Crash''])
     (K8sTriggerEvent \<lparr>operation = CREATE, obj = Some scenario_event\<rparr>) ''rule1'' []
     = (True, [(''WarningEventTrigger_rule1_BackOff'', ''n1:p1'', 60)])"
proof -
  let ?env = "scenario_collaborators recording_limiter"
  let ?exec = "\<lparr>operation = CREATE, obj = Some scenario_event\<rparr>"
  let ?reg = "\<lparr>name = Some ''p1'', namespace = Some ''n1''\<rparr>"
  have w1: "should_fire ?env
      (WarningEventTrigger_init None None None 60 None [] [''oom'', ''evicted''])
      (K8sTriggerEvent ?exec) ''rule1'' [] = (False, [])"
    using should_fire_include_filter
      [of ?env "WarningEventTrigger_init None None None 60 None [] [''oom'', ''evicted'']"
          ?exec ?exec scenario_event "''rule1''" "[]", THEN conjunct1]
    by (simp add: scenario_defs)
  have w2: "should_fire ?env
      (WarningEventTrigger_init None None None 60 None [] [])
      (K8sTriggerEvent ?exec) ''rule1'' []
      = (True, [(''WarningEventTrigger_rule1_BackOff'', ''n1:p1'', 60)])"
    using should_fire_include_filter
      [of ?env "WarningEventTrigger_init None None None 60 None [] []"
          ?exec ?exec scenario_event "''rule1''" "[]" ?reg, THEN conjunct2]
    by (simp add: scenario_defs)
  have w3: "should_fire ?env
      (WarningEventTrigger_init None None None 60 None [] [''oom'', ''Crash''])
      (K8sTriggerEvent ?exec) ''rule1'' []
      = (True, [(''WarningEventTrigger_rule1_BackOff'', ''n1:p1'', 60)])"
    using should_fire_include_filter
      [of ?env "WarningEventTrigger_init None None None 60 None [] [''oom'', ''Crash'']"
          ?exec ?exec scenario_event "''rule1''" "[]" ?reg, THEN conjunct2]
    by (simp add: scenario_defs)
  from w1 w2 w3 show ?thesis by blast
qed

text \<open>
  Claim C7. When every predicate step passes, \<open>should_fire\<close> is one call of the rate
  limiter, and what that call returns (verdict and state) is what \<open>should_fire\<close>
  returns. The bucket key is \<open>WarningEventTrigger_\<close>, the rule id, \<open>_\<close> and the reason;
  the discriminator is the resolver's service key, or \<open>namespace:name\<close> when the
  resolver yields nothing (\<open>None\<close> or the empty string, both falsy in the source's
  test); an absent name or namespace counts as the empty string; the window is the
  rule's \<open>rate_limit\<close>.
\<close>

theorem should_fire_rate_limiter_call:
  "base_should_fire env self (K8sTriggerEvent payload) playbook_id \<Longrightarrow>
   build_execution_event env self payload = Some (IsEventChangeEvent exec_event) \<Longrightarrow>
   obj exec_event = Some ob \<Longrightarrow> regarding ob = Some reg \<Longrightarrow> type ob = ''Warning'' \<Longrightarrow>
   \<not> operation_denied self exec_event \<Longrightarrow> \<not> exclusion_found self ob \<Longrightarrow>
   \<not> inclusion_missing self ob \<Longrightarrow>
   name' = (case name reg of None \<Rightarrow> '''' | Some n \<Rightarrow> n) \<Longrightarrow>
   namespace' = (case namespace reg of None \<Rightarrow> '''' | Some n \<Rightarrow> n) \<Longrightarrow>
     should_fire env self (K8sTriggerEvent payload) playbook_id limiter =
       RateLimiter_mark_and_test env
         (''WarningEventTrigger_'' @ playbook_id @ ''_'' @ reason ob)
         (case guess_service_key env name' namespace' of
            None \<Rightarrow> namespace' @ '':'' @ name'
          | Some service_key \<Rightarrow>
              if service_key = '''' then namespace' @ '':'' @ name' else service_key)
         (rate_limit self) limiter"
proof -
  assume names: "name' = (case name reg of None \<Rightarrow> '''' | Some n \<Rightarrow> n)"
    "namespace' = (case namespace reg of None \<Rightarrow> '''' | Some n \<Rightarrow> n)"
  have n: "if_truthy_else (name reg) '''' = name'"
    using names by (simp split: option.split)
  have ns: "if_truthy_else (namespace reg) '''' = namespace'"
    using names by (simp split: option.split)
  have key: "if_truthy_else (guess_service_key env name' namespace') (namespace' @ '':'' @ name')
      = (case guess_service_key env name' namespace' of
            None \<Rightarrow> namespace' @ '':'' @ name'
          | Some service_key \<Rightarrow>
              if service_key = '''' then namespace' @ '':'' @ name' else service_key)"
    by (simp split: option.split)
  assume "base_should_fire env self (K8sTriggerEvent payload) playbook_id"
    "build_execution_event env self payload = Some (IsEventChangeEvent exec_event)"
    "obj exec_event = Some ob" "regarding ob = Some reg" "type ob = ''Warning''"
    "\<not> operation_denied self exec_event" "\<not> exclusion_found self ob"
    "\<not> inclusion_missing self ob"
  then have "should_fire env self (K8sTriggerEvent payload) playbook_id limiter =
       RateLimiter_mark_and_test env
         (''WarningEventTrigger_'' @ playbook_id @ ''_'' @ reason ob)
         (if_truthy_else
            (guess_service_key env (if_truthy_else (name reg) '''')
               (if_truthy_else (namespace reg) ''''))
            (if_truthy_else (namespace reg) '''' @ '':'' @ if_truthy_else (name reg) ''''))
         (rate_limit self) limiter"
    by (rule should_fire_admitted)
  then show ?thesis by (simp only: n ns key)
qed

theorem should_fire_rate_limiter_call_witness:
  "should_fire (scenario_collaborators recording_limiter)
     (WarningEventTrigger_init None None None 3600 None [] [])
     (K8sTriggerEvent \<lparr>operation = CREATE,
        obj = Some (scenario_event\<lparr>regarding :=
                Some \<lparr>name = Some ''pod-7'', namespace = Some ''ns-a''\<rparr>\<rparr>)\<rparr>)
     ''rule1'' []
     = (True, [(''WarningEventTrigger_rule1_BackOff'', ''ns-a:pod-7'', 3600)]) \<and>
   should_fire ((scenario_collaborators recording_limiter)
        \<lparr>guess_service_key := \<lambda>name namespace. Some (namespace @ ''/Deployment/web'')\<rparr>)
     (WarningEventTrigger_init None None None 3600 None [] [])
     (K8sTriggerEvent \<lparr>operation = CREATE,
        obj = Some (scenario_event\<lparr>regarding :=
                Some \<lparr>name = Some ''pod-7'', namespace = Some ''ns-a''\<rparr>\<rparr>)\<rparr>)
     ''rule1'' []
     = (True, [(''WarningEventTrigger_rule1_BackOff'', ''ns-a/Deployment/web'', 3600)]) \<and>
   should_fire (scenario_collaborators recording_limiter)
     (WarningEventTrigger_init None None None 3600 None [] [])
     (K8sTriggerEvent \<lparr>operation = CREATE,
        obj = Some (scenario_event\<lparr>regarding :=
                Some \<lparr>name = None, namespace = Some ''ns-a''\<rparr>\<rparr>)\<rparr>)
     ''rule1'' []
     = (True, [(''WarningEventTrigger_rule1_BackOff'', ''ns-a:'', 3600)])"
proof -
  let ?env = "scenario_collaborators recording_limiter"
  let ?env' = "?env\<lparr>guess_service_key := \<lambda>name namespace. Some (namespace @ ''/Deployment/web'')\<rparr>"
  let ?self = "WarningEventTrigger_init None None None 3600 None [] []"
  let ?reg = "\<lparr>name = Some ''pod-7'', namespace = Some ''ns-a''\<rparr>"
  let ?reg' = "\<lparr>name = None, namespace = Some ''ns-a''\<rparr>"
  let ?ob = "scenario_event\<lparr>regarding := Some ?reg\<rparr>"
  let ?ob' = "scenario_event\<lparr>regarding := Some ?reg'\<rparr>"
  let ?exec = "\<lparr>operation = CREATE, obj = Some ?ob\<rparr>"
  let ?exec' = "\<lparr>operation = CREATE, obj = Some ?ob'\<rparr>"
  have w1: "should_fire ?env ?self (K8sTriggerEvent ?exec) ''rule1'' []
      = (True, [(''WarningEventTrigger_rule1_BackOff'', ''ns-a:pod-7'', 3600)])"
    using should_fire_rate_limiter_call
      [of ?env ?self ?exec "''rule1''" ?exec ?ob ?reg "''pod-7''" "''ns-a''" "[]"]
    by (simp add: scenario_defs)
  have w2: "should_fire ?env' ?self (K8sTriggerEvent ?exec) ''rule1'' []
      = (True, [(''WarningEventTrigger_rule1_BackOff'', ''ns-a/Deployment/web'', 3600)])"
    using should_fire_rate_limiter_call
      [of ?env' ?self ?exec "''rule1''" ?exec ?ob ?reg "''pod-7''" "''ns-a''" "[]"]
    by (simp add: scenario_defs)
  have w3: "should_fire ?env ?self (K8sTriggerEvent ?exec') ''rule1'' []
      = (True, [(''WarningEventTrigger_rule1_BackOff'', ''ns-a:'', 3600)])"
    using should_fire_rate_limiter_call
      [of ?env ?self ?exec' "''rule1''" ?exec' ?ob' ?reg' "''''" "''ns-a''" "[]"]
    by (simp add: scenario_defs)
  from w1 w2 w3 show ?thesis by blast
qed

text \<open>
  Claim C8. For all constructor arguments, every event and every rule id, the trigger
  built by \<open>WarningEventCreateTrigger\<close>, \<open>WarningEventUpdateTrigger\<close> or
  \<open>WarningEventDeleteTrigger\<close> decides as the base trigger built from the same arguments
  with \<open>operations\<close> set to \<open>["create"]\<close>, \<open>["update"]\<close> or \<open>["delete"]\<close>.
\<close>

theorem should_fire_specializations:
  "should_fire env
     (WarningEventCreateTrigger_init name_prefix' namespace_prefix' labels_selector' rate_limit'
        exclude' include') event playbook_id limiter
   = should_fire env
     (WarningEventTrigger_init name_prefix' namespace_prefix' labels_selector' rate_limit'
        (Some [''create'']) exclude' include') event playbook_id limiter \<and>
   should_fire env
     (WarningEventUpdateTrigger_init name_prefix' namespace_prefix' labels_selector' rate_limit'
        exclude' include') event playbook_id limiter
   = should_fire env
     (WarningEventTrigger_init name_prefix' namespace_prefix' labels_selector' rate_limit'
        (Some [''update'']) exclude' include') event playbook_id limiter \<and>
   should_fire env
     (WarningEventDeleteTrigger_init name_prefix' namespace_prefix' labels_selector' rate_limit'
        exclude' include') event playbook_id limiter
   = should_fire env
     (WarningEventTrigger_init name_prefix' namespace_prefix' labels_selector' rate_limit'
        (Some [''delete'']) exclude' include') event playbook_id limiter"
  by (simp only: WarningEventCreateTrigger_init_def WarningEventUpdateTrigger_init_def
        WarningEventDeleteTrigger_init_def)

theorem should_fire_specializations_witness:
  "should_fire (scenario_collaborators (mark_and_test 0))
     (WarningEventCreateTrigger_init None None None 60 [] [''crash''])
     (K8sTriggerEvent \<lparr>operation = CREATE, obj = Some scenario_event\<rparr>) ''rule1'' Map.empty
     = (True, [(''WarningEventTrigger_rule1_BackOff'', ''n1:p1'') \<mapsto> 0]) \<and>
   should_fire (scenario_collaborators (mark_and_test 30))
     (WarningEventCreateTrigger_init None None None 60 [] [''crash''])
     (K8sTriggerEvent \<lparr>operation = CREATE, obj = Some scenario_event\<rparr>) ''rule1''
     [(''WarningEventTrigger_rule1_BackOff'', ''n1:p1'') \<mapsto> 0]
     = (False, [(''WarningEventTrigger_rule1_BackOff'', ''n1:p1'') \<mapsto> 0]) \<and>
   should_fire (scenario_collaborators (mark_and_test 61))
     (WarningEventCreateTrigger_init None None None 60 [] [''crash''])
     (K8sTriggerEvent \<lparr>operation = CREATE, obj = Some scenario_event\<rparr>) ''rule1''
     [(''WarningEventTrigger_rule1_BackOff'', ''n1:p1'') \<mapsto> 0]
     = (True, [(''WarningEventTrigger_rule1_BackOff'', ''n1:p1'') \<mapsto> 61]) \<and>
   should_fire (scenario_collaborators (mark_and_test 0))
     (WarningEventDeleteTrigger_init None None None 60 [] [''crash''])
     (K8sTriggerEvent \<lparr>operation = CREATE, obj = Some scenario_event\<rparr>) ''rule1'' Map.empty
     = (False, Map.empty)"
proof -
  let ?event = "K8sTriggerEvent \<lparr>operation = CREATE, obj = Some scenario_event\<rparr>"
  let ?create = "WarningEventTrigger_init None None None 60 (Some [''create'']) [] [''crash'']"
  let ?delete = "WarningEventTrigger_init None None None 60 (Some [''delete'']) [] [''crash'']"
  let ?key = "(''WarningEventTrigger_rule1_BackOff'', ''n1:p1'')"
  note evaluate = should_fire_def scenario_defs mark_and_test_def window_expired_def get_event_def
  have b1: "should_fire (scenario_collaborators (mark_and_test 0)) ?create ?event ''rule1''
      Map.empty = (True, [?key \<mapsto> 0])"
    by (simp add: evaluate)
  have b2: "should_fire (scenario_collaborators (mark_and_test 30)) ?create ?event ''rule1''
      [?key \<mapsto> 0] = (False, [?key \<mapsto> 0])"
    by (simp add: evaluate)
  have b3: "should_fire (scenario_collaborators (mark_and_test 61)) ?create ?event ''rule1''
      [?key \<mapsto> 0] = (True, [?key \<mapsto> 61])"
    by (simp add: evaluate)
  have b4: "should_fire (scenario_collaborators (mark_and_test 0)) ?delete ?event ''rule1''
      Map.empty = (False, Map.empty)"
    by (simp add: evaluate)
  from b1 b2 b3 b4 show ?thesis
    by (simp only: should_fire_specializations)
qed

text \<open>
  Claim C10. When a predicate step denies (the structural matcher, the event's class,
  a missing payload or \<open>regarding\<close>, a type other than \<open>Warning\<close>, the operation
  filter, an exclusion, a missing inclusion), \<open>should_fire\<close> returns \<open>False\<close> and the
  rate limiter's state is the one it was given. This holds for every rate limiter,
  also one that changes its state on every call, so the limiter is not called, and no
  key's window is opened by a denied event.
\<close>

theorem should_fire_denied_frame:
  "denied_by_predicates env self event playbook_id \<Longrightarrow>
     should_fire env self event playbook_id limiter = (False, limiter)"
  by (auto simp: denied_by_predicates_def should_fire_def operation_denied_def
        exclusion_found_def inclusion_missing_def get_event_def Let_def
      split: TriggerEvent.splits option.splits ExecutionBaseEvent.splits)

theorem should_fire_denied_frame_witness:
  "denied_by_predicates (scenario_collaborators recording_limiter)
     (WarningEventTrigger_init None None None 60 (Some [''delete'']) [''backoff''] [''oom''])
     (K8sTriggerEvent \<lparr>operation = CREATE, obj = Some scenario_event\<rparr>) ''rule1'' \<and>
   should_fire (scenario_collaborators recording_limiter)
     (WarningEventTrigger_init None None None 60 (Some [''delete'']) [''backoff''] [''oom''])
     (K8sTriggerEvent \<lparr>operation = CREATE, obj = Some scenario_event\<rparr>) ''rule1''
     [(''WarningEventTrigger_rule0_Failed'', ''n1:p1'', 60)]
     = (False, [(''WarningEventTrigger_rule0_Failed'', ''n1:p1'', 60)]) \<and>
   denied_by_predicates
     ((scenario_collaborators recording_limiter)\<lparr>base_should_fire := \<lambda>self event playbook_id. False\<rparr>)
     (WarningEventTrigger_init None None None 60 None [] [])
     (K8sTriggerEvent \<lparr>operation = CREATE, obj = Some scenario_event\<rparr>) ''rule1'' \<and>
   should_fire
     ((scenario_collaborators recording_limiter)\<lparr>base_should_fire := \<lambda>self event playbook_id. False\<rparr>)
     (WarningEventTrigger_init None None None 60 None [] [])
     (K8sTriggerEvent \<lparr>operation = CREATE, obj = Some scenario_event\<rparr>) ''rule1'' []
     = (False, [])"
proof -
  let ?env = "scenario_collaborators recording_limiter"
  let ?env' = "?env\<lparr>base_should_fire := \<lambda>self event playbook_id. False\<rparr>"
  let ?self = "WarningEventTrigger_init None None None 60 (Some [''delete'']) [''backoff''] [''oom'']"
  let ?self' = "WarningEventTrigger_init None None None 60 None [] []"
  let ?event = "K8sTriggerEvent \<lparr>operation = CREATE, obj = Some scenario_event\<rparr>"
  have d1: "denied_by_predicates ?env ?self ?event ''rule1''"
    by (simp add: denied_by_predicates_def scenario_defs)
  have d2: "denied_by_predicates ?env' ?self' ?event ''rule1''"
    by (simp add: denied_by_predicates_def scenario_defs)
  from d1 d2
    should_fire_denied_frame [OF d1, of "[(''WarningEventTrigger_rule0_Failed'', ''n1:p1'', 60)]"]
    should_fire_denied_frame [OF d2, of "[]"]
  show ?thesis by blast
qed

end
